theory Spec2Isabelle
  imports Complex_Main "HOL-Library.DAList"
begin

section \<open>Python values used by calculator.py\<close>

subsection \<open>Floats\<close>

text \<open>
  A Python float is an IEEE-754 binary64 value: finite, one of the two infinities,
  or NaN.  A finite value is carried as the real number it denotes.  An operator
  applied to finite operands rounds the exact result to the nearest binary64
  value, ties to the even significand, with gradual underflow and overflow to an
  infinity; the special values, the comparisons and the case analysis of every
  operator follow IEEE-754 as Python exposes it.  The sign of zero is outside this
  model.  Every result of an operator is a binary64 value; the type also holds the
  reals in between, and what is proved of all of them holds of the binary64 ones.
\<close>

datatype pyfloat = Fin real | PInf | NInf | NaN

text \<open>Rounding a real to the nearest integer, a tie going to the even one.\<close>

definition round_half_even :: "real \<Rightarrow> int" where
  "round_half_even t =
     (let f = \<lfloor>t\<rfloor>; d = t - of_int f
      in if d < 1 / 2 then f else if 1 / 2 < d then f + 1 else if even f then f else f + 1)"

text \<open>
  The binary exponent used for rounding a magnitude \<open>a\<close>: the largest \<open>e\<close> from 1023
  downwards with \<open>2 ^ e \<le> a\<close>, and the least normal exponent -1022 when there is
  none (the subnormal range).
\<close>

fun exponent_from :: "nat \<Rightarrow> int \<Rightarrow> real \<Rightarrow> int" where
  "exponent_from 0 e a = e"
| "exponent_from (Suc n) e a = (if 2 powi e \<le> a then e else exponent_from n (e - 1) a)"

definition double_exponent :: "real \<Rightarrow> int" where
  "double_exponent a = exponent_from 2045 1023 a"

text \<open>
  Round to nearest, ties to even: the magnitude is rounded to a multiple of the
  spacing \<open>2 ^ (e - 52)\<close> of its binade; a rounded magnitude of \<open>2 ^ 1024\<close> or more
  overflows to the infinity of the sign.
\<close>

definition double_round :: "real \<Rightarrow> pyfloat" where
  "double_round x =
     (let a = \<bar>x\<bar>;
          q = 2 powi (double_exponent a - 52);
          m = of_int (round_half_even (a / q)) * q
      in if 2 powi 1024 \<le> m then (if 0 < x then PInf else NInf)
         else Fin (if 0 < x then m else - m))"

fun fadd :: "pyfloat \<Rightarrow> pyfloat \<Rightarrow> pyfloat" where
  "fadd NaN b = NaN"
| "fadd a NaN = NaN"
| "fadd PInf NInf = NaN"
| "fadd NInf PInf = NaN"
| "fadd PInf b = PInf"
| "fadd a PInf = PInf"
| "fadd NInf b = NInf"
| "fadd a NInf = NInf"
| "fadd (Fin x) (Fin y) = double_round (x + y)"

fun fsub :: "pyfloat \<Rightarrow> pyfloat \<Rightarrow> pyfloat" where
  "fsub NaN b = NaN"
| "fsub a NaN = NaN"
| "fsub PInf PInf = NaN"
| "fsub NInf NInf = NaN"
| "fsub PInf b = PInf"
| "fsub a NInf = PInf"
| "fsub NInf b = NInf"
| "fsub a PInf = NInf"
| "fsub (Fin x) (Fin y) = double_round (x - y)"

text \<open>The product of an infinity and a finite value takes the sign of the product;
  an infinity times zero is NaN.\<close>

fun inf_times :: "bool \<Rightarrow> real \<Rightarrow> pyfloat" where
  "inf_times positive x =
     (if x = 0 then NaN else if (0 < x) = positive then PInf else NInf)"

fun fmul :: "pyfloat \<Rightarrow> pyfloat \<Rightarrow> pyfloat" where
  "fmul NaN b = NaN"
| "fmul a NaN = NaN"
| "fmul PInf PInf = PInf"
| "fmul PInf NInf = NInf"
| "fmul NInf PInf = NInf"
| "fmul NInf NInf = PInf"
| "fmul PInf (Fin y) = inf_times True y"
| "fmul NInf (Fin y) = inf_times False y"
| "fmul (Fin x) PInf = inf_times True x"
| "fmul (Fin x) NInf = inf_times False x"
| "fmul (Fin x) (Fin y) = double_round (x * y)"

text \<open>The quotient for a divisor that does not compare equal to zero; the zero
  divisor is the business of \<open>truediv\<close> below.\<close>

fun fquot :: "pyfloat \<Rightarrow> pyfloat \<Rightarrow> pyfloat" where
  "fquot NaN b = NaN"
| "fquot a NaN = NaN"
| "fquot (Fin x) (Fin y) = double_round (x / y)"
| "fquot (Fin x) b = Fin 0"
| "fquot PInf (Fin y) = (if 0 < y then PInf else NInf)"
| "fquot NInf (Fin y) = (if 0 < y then NInf else PInf)"
| "fquot a b = NaN"

text \<open>Python's \<open><\<close>, \<open>==\<close> and \<open><=\<close> on floats: every comparison with NaN is false.\<close>

fun flt :: "pyfloat \<Rightarrow> pyfloat \<Rightarrow> bool" where
  "flt NaN b = False"
| "flt a NaN = False"
| "flt (Fin x) (Fin y) = (x < y)"
| "flt a NInf = False"
| "flt PInf b = False"
| "flt a b = True"

definition feq :: "pyfloat \<Rightarrow> pyfloat \<Rightarrow> bool" where
  "feq a b = (a = b \<and> a \<noteq> NaN)"

definition fle :: "pyfloat \<Rightarrow> pyfloat \<Rightarrow> bool" where
  "fle a b = (flt a b \<or> feq a b)"

text \<open>The built-ins \<open>min(a, b)\<close> and \<open>max(a, b)\<close> keep the first argument unless the
  second is strictly smaller (greater).\<close>

definition py_min :: "pyfloat \<Rightarrow> pyfloat \<Rightarrow> pyfloat" where
  "py_min a b = (if flt b a then b else a)"

definition py_max :: "pyfloat \<Rightarrow> pyfloat \<Rightarrow> pyfloat" where
  "py_max a b = (if flt a b then b else a)"

subsection \<open>Exceptions\<close>

datatype py_error = ValueError string | ZeroDivisionError | KeyError int

text \<open>Python's \<open>a / b\<close> on floats raises on a divisor equal to zero.\<close>

definition truediv :: "pyfloat \<Rightarrow> pyfloat \<Rightarrow> py_error + pyfloat" where
  "truediv a b = (if feq b (Fin 0) then Inl ZeroDivisionError else Inr (fquot a b))"

section \<open>Validation and evaluation\<close>

text \<open>What the program prints.  Constant lines are \<open>Text\<close>; a formatted line is a
  constructor carrying the values that the format string interpolates.\<close>

record calc =
  timestamp :: string
  num1 :: pyfloat
  num2 :: pyfloat
  operation :: string
  result :: pyfloat

datatype out =
    Text string
  | ResultLine pyfloat string pyfloat pyfloat
  | DayHeader int
  | NumberedCalc nat calc
  | DayStatsHeader int
  | TotalCalculations int
  | SumOfResults pyfloat
  | AverageResult pyfloat
  | MinResult pyfloat
  | MaxResult pyfloat
  | NoCalculationsFound int
  | DayCount int nat
  | IndentedCalc calc
  | DayLabel int

definition validate_inputs :: "pyfloat \<Rightarrow> pyfloat \<Rightarrow> string \<Rightarrow> out list \<times> bool" where
  "validate_inputs n1 n2 opr =
     (if opr = ''/'' \<and> feq n2 (Fin 0)
      then ([Text ''Error: Division by zero is not allowed!''], False)
      else ([], True))"

definition execute_operation :: "pyfloat \<Rightarrow> pyfloat \<Rightarrow> string \<Rightarrow> py_error + pyfloat" where
  "execute_operation n1 n2 opr =
     (if opr = ''+'' then Inr (fadd n1 n2)
      else if opr = ''-'' then Inr (fsub n1 n2)
      else if opr = ''*'' then Inr (fmul n1 n2)
      else if opr = ''/'' then truediv n1 n2
      else Inl (ValueError (''Unknown operation: '' @ opr)))"

definition display_result :: "pyfloat \<Rightarrow> pyfloat \<Rightarrow> string \<Rightarrow> pyfloat \<Rightarrow> out list" where
  "display_result n1 n2 opr res =
     [Text (CHR 0x0A # replicate 40 (CHR ''='')),
      Text ''CALCULATION RESULT'',
      Text (replicate 40 (CHR ''='')),
      ResultLine n1 opr n2 res,
      Text (replicate 40 (CHR ''=''))]"

section \<open>The history store\<close>

text \<open>
  The two module-level dictionaries.  A Python dictionary has distinct keys and
  keeps them in insertion order, which is what a distinct association list is:
  \<open>DAList.update\<close> replaces the value of a key in place and puts a new key at the
  end.  The statistics of a day are the dictionary with the five keys
  \<open>count\<close>, \<open>sum\<close>, \<open>min\<close>, \<open>max\<close> and \<open>average\<close>.
\<close>

record stats =
  count :: int
  sum_stat :: pyfloat
  min_stat :: pyfloat
  max_stat :: pyfloat
  average :: pyfloat

record store =
  calculation_history :: "(int, calc list) alist"
  daily_stats :: "(int, stats) alist"

definition empty_store :: store where
  "empty_store = \<lparr>calculation_history = DAList.empty, daily_stats = DAList.empty\<rparr>"

definition new_stats :: stats where
  "new_stats = \<lparr>count = 0, sum_stat = Fin 0, min_stat = PInf, max_stat = NInf, average = Fin 0\<rparr>"

text \<open>
  \<open>update_daily_stats\<close> mutates the entry of the day field by field; the division
  in its last line is a float by an int and raises when the count is zero, in
  which case the first four assignments have already happened.  The count is
  converted to the float of the same value.
\<close>

definition update_daily_stats ::
  "int \<Rightarrow> pyfloat \<Rightarrow> (int, stats) alist \<Rightarrow> (int, stats) alist \<times> py_error option" where
  "update_daily_stats day res ds =
     (let st = (case DAList.lookup ds day of None \<Rightarrow> new_stats | Some st0 \<Rightarrow> st0);
          st1 = st\<lparr>count := count st + 1\<rparr>;
          st2 = st1\<lparr>sum_stat := fadd (sum_stat st1) res\<rparr>;
          st3 = st2\<lparr>min_stat := py_min (min_stat st2) res\<rparr>;
          st4 = st3\<lparr>max_stat := py_max (max_stat st3) res\<rparr>
      in case truediv (sum_stat st4) (Fin (of_int (count st4))) of
           Inl e \<Rightarrow> (DAList.update day st4 ds, Some e)
         | Inr avg \<Rightarrow> (DAList.update day (st4\<lparr>average := avg\<rparr>) ds, None))"

text \<open>The records filed under a day; a day that is not a key has none.\<close>

definition day_records :: "(int, calc list) alist \<Rightarrow> int \<Rightarrow> calc list" where
  "day_records h day = (case DAList.lookup h day of None \<Rightarrow> [] | Some cs \<Rightarrow> cs)"

text \<open>
  \<open>store_calculation\<close> reads the clock twice, for the day and for the timestamp;
  the two readings are the first two arguments.
\<close>

definition store_calculation ::
  "int \<Rightarrow> string \<Rightarrow> pyfloat \<Rightarrow> pyfloat \<Rightarrow> string \<Rightarrow> pyfloat \<Rightarrow> store
     \<Rightarrow> store \<times> py_error option" where
  "store_calculation current_day now n1 n2 opr res s =
     (let calculation_record =
            \<lparr>timestamp = now, num1 = n1, num2 = n2, operation = opr, result = res\<rparr>;
          h = DAList.update current_day
                (day_records (calculation_history s) current_day @ [calculation_record])
                (calculation_history s);
          (ds, e) = update_daily_stats current_day res (daily_stats s)
      in (\<lparr>calculation_history = h, daily_stats = ds\<rparr>, e))"

section \<open>Viewing\<close>

definition stats_lines :: "stats \<Rightarrow> out list" where
  "stats_lines st =
     [TotalCalculations (count st), SumOfResults (sum_stat st), AverageResult (average st),
      MinResult (min_stat st), MaxResult (max_stat st)]"

text \<open>The loop over \<open>sorted(calculation_history.keys())\<close>; indexing the dictionary
  with a key it does not have raises \<open>KeyError\<close> and ends the loop.\<close>

fun show_days :: "(int, calc list) alist \<Rightarrow> int list \<Rightarrow> out list \<times> py_error option" where
  "show_days h [] = ([], None)"
| "show_days h (day # days) =
     (case DAList.lookup h day of
        None \<Rightarrow> ([], Some (KeyError day))
      | Some cs \<Rightarrow>
          (let (os, e) = show_days h days
           in (DayCount day (length cs) # map IndentedCalc cs @ os, e)))"

definition display_daily_history :: "int option \<Rightarrow> store \<Rightarrow> out list \<times> py_error option" where
  "display_daily_history day_opt s =
     (case day_opt of
        Some day \<Rightarrow>
          (case DAList.lookup (calculation_history s) day of
             Some cs \<Rightarrow>
               (DayHeader day
                  # map (\<lambda>(i, c). NumberedCalc i c) (zip [1 ..< Suc (length cs)] cs)
                  @ (case DAList.lookup (daily_stats s) day of
                       Some st \<Rightarrow> DayStatsHeader day # stats_lines st
                     | None \<Rightarrow> []),
                None)
           | None \<Rightarrow> ([NoCalculationsFound day], None))
      | None \<Rightarrow>
          (if DAList.impl_of (calculation_history s) \<noteq> []
           then (let (os, e) =
                       show_days (calculation_history s)
                         (sort (map fst (DAList.impl_of (calculation_history s))))
                 in (Text (CHR 0x0A # ''=== All Calculation History ==='') # os, e))
           else ([Text ''No calculation history available.''], None)))"

text \<open>The loop of menu entry 5 over \<open>sorted(daily_stats.keys())\<close>.\<close>

fun show_stats :: "(int, stats) alist \<Rightarrow> int list \<Rightarrow> out list \<times> py_error option" where
  "show_stats ds [] = ([], None)"
| "show_stats ds (day # days) =
     (case DAList.lookup ds day of
        None \<Rightarrow> ([], Some (KeyError day))
      | Some st \<Rightarrow>
          (let (os, e) = show_stats ds days
           in (DayLabel day # stats_lines st @ os, e)))"

definition view_statistics :: "store \<Rightarrow> out list \<times> py_error option" where
  "view_statistics s =
     (if DAList.impl_of (daily_stats s) \<noteq> []
      then (let (os, e) =
                  show_stats (daily_stats s) (sort (map fst (DAList.impl_of (daily_stats s))))
            in (Text (CHR 0x0A # ''=== Daily Statistics ==='') # os, e))
      else ([Text ''No statistics available.''], None))"

section \<open>One pass through the menu loop\<close>

text \<open>
  What one iteration of the loop in \<open>main\<close> reads from outside: the menu choice
  returned by \<open>get_menu_choice\<close>, the triple returned by \<open>get_user_inputs\<close>, the
  day typed for menu entry 3 (\<open>None\<close> when \<open>int\<close> raises \<open>ValueError\<close>), and the
  clock.  The prompts those two functions print are not part of the output here.
\<close>

record inputs =
  choice :: string
  entered_num1 :: pyfloat
  entered_num2 :: pyfloat
  entered_operation :: string
  entered_day :: "int option"
  clock_day :: int
  clock_timestamp :: string

text \<open>How an iteration ends: the loop goes on, \<open>break\<close>, or an exception leaves the
  loop for the handler around it.\<close>

datatype outcome = Continue | Break | Raised py_error

definition after_view :: "store \<Rightarrow> out list \<times> py_error option \<Rightarrow> out list \<times> store \<times> outcome" where
  "after_view s r = (fst r, s, (case snd r of None \<Rightarrow> Continue | Some e \<Rightarrow> Raised e))"

definition main_iteration :: "inputs \<Rightarrow> store \<Rightarrow> out list \<times> store \<times> outcome" where
  "main_iteration i s =
     (if choice i = ''1'' then
        (let (shown, ok) =
               validate_inputs (entered_num1 i) (entered_num2 i) (entered_operation i)
         in if \<not> ok then (shown, s, Continue)
            else
              (case execute_operation (entered_num1 i) (entered_num2 i) (entered_operation i) of
                 Inl e \<Rightarrow> (shown, s, Raised e)
               | Inr res \<Rightarrow>
                   (let (s', e) =
                          store_calculation (clock_day i) (clock_timestamp i)
                            (entered_num1 i) (entered_num2 i) (entered_operation i) res s
                    in (shown
                          @ display_result (entered_num1 i) (entered_num2 i)
                              (entered_operation i) res,
                        s',
                        (case e of None \<Rightarrow> Continue | Some err \<Rightarrow> Raised err)))))
      else if choice i = ''2'' then
        after_view s (display_daily_history (Some (clock_day i)) s)
      else if choice i = ''3'' then
        (case entered_day i of
           None \<Rightarrow> ([Text ''Error: Please enter a valid day number''], s, Continue)
         | Some day \<Rightarrow>
             (if 1 \<le> day \<and> day \<le> 31
              then after_view s (display_daily_history (Some day) s)
              else ([Text ''Error: Day must be between 1 and 31''], s, Continue)))
      else if choice i = ''4'' then
        after_view s (display_daily_history None s)
      else if choice i = ''5'' then
        after_view s (view_statistics s)
      else if choice i = ''6'' then
        ([Text ''Thank you for using the Enhanced Calculator!''], s, Break)
      else ([Text ''Invalid choice. Please select 1-6.''], s, Continue))"

text \<open>The states of the store during a run: it starts empty and only
  \<open>store_calculation\<close> writes to it.\<close>

inductive reachable :: "store \<Rightarrow> bool" where
  reachable_empty: "reachable empty_store"
| reachable_store:
    "reachable s \<Longrightarrow> reachable (fst (store_calculation d now n1 n2 opr res s))"

section \<open>Vocabulary of the properties\<close>

text \<open>Appending a sequence of calculations to one day, one \<open>store_calculation\<close>
  after the other; an exception stops the sequence.\<close>

fun append_all :: "int \<Rightarrow> calc list \<Rightarrow> store \<Rightarrow> store \<times> py_error option" where
  "append_all day [] s = (s, None)"
| "append_all day (c # cs) s =
     (case store_calculation day (timestamp c) (num1 c) (num2 c) (operation c) (result c) s of
        (s', None) \<Rightarrow> append_all day cs s'
      | (s', Some e) \<Rightarrow> (s', Some e))"

text \<open>The smallest and the largest of a list of results, by Python's \<open><=\<close>.\<close>

definition least_of :: "pyfloat list \<Rightarrow> pyfloat \<Rightarrow> bool" where
  "least_of rs m = (m \<in> set rs \<and> (\<forall>r \<in> set rs. fle m r))"

definition greatest_of :: "pyfloat list \<Rightarrow> pyfloat \<Rightarrow> bool" where
  "greatest_of rs m = (m \<in> set rs \<and> (\<forall>r \<in> set rs. fle r m))"

text \<open>
  The standard result of an operator, for comparison with the evaluator: the
  mathematical result of the operator on reals, and the IEEE-754 result on floats,
  written by classifying the operands (NaN, infinite, finite) instead of by
  cases on both.  The quotient is for a divisor that is not zero.
\<close>

definition exact_result :: "string \<Rightarrow> real \<Rightarrow> real \<Rightarrow> real" where
  "exact_result opr x y =
     (if opr = ''+'' then x + y else if opr = ''-'' then x - y
      else if opr = ''*'' then x * y else x / y)"

definition is_inf :: "pyfloat \<Rightarrow> bool" where
  "is_inf a = (a = PInf \<or> a = NInf)"

fun real_of :: "pyfloat \<Rightarrow> real" where
  "real_of (Fin x) = x"
| "real_of a = 0"

fun positive :: "pyfloat \<Rightarrow> bool" where
  "positive (Fin x) = (0 < x)"
| "positive PInf = True"
| "positive a = False"

fun negate :: "pyfloat \<Rightarrow> pyfloat" where
  "negate (Fin x) = Fin (- x)"
| "negate PInf = NInf"
| "negate NInf = PInf"
| "negate NaN = NaN"

definition signed_inf :: "bool \<Rightarrow> pyfloat" where
  "signed_inf pos = (if pos then PInf else NInf)"

definition ieee_add :: "pyfloat \<Rightarrow> pyfloat \<Rightarrow> pyfloat" where
  "ieee_add a b =
     (if a = NaN \<or> b = NaN then NaN
      else if is_inf a \<and> is_inf b then (if a = b then a else NaN)
      else if is_inf a then a
      else if is_inf b then b
      else double_round (real_of a + real_of b))"

definition ieee_sub :: "pyfloat \<Rightarrow> pyfloat \<Rightarrow> pyfloat" where
  "ieee_sub a b = ieee_add a (negate b)"

definition ieee_mul :: "pyfloat \<Rightarrow> pyfloat \<Rightarrow> pyfloat" where
  "ieee_mul a b =
     (if a = NaN \<or> b = NaN then NaN
      else if is_inf a \<or> is_inf b
        then (if a = Fin 0 \<or> b = Fin 0 then NaN else signed_inf (positive a = positive b))
      else double_round (real_of a * real_of b))"

definition ieee_div :: "pyfloat \<Rightarrow> pyfloat \<Rightarrow> pyfloat" where
  "ieee_div a b =
     (if a = NaN \<or> b = NaN then NaN
      else if is_inf a \<and> is_inf b then NaN
      else if is_inf a then signed_inf (positive a = positive b)
      else if is_inf b then Fin 0
      else double_round (real_of a / real_of b))"

definition standard_result :: "string \<Rightarrow> pyfloat \<Rightarrow> pyfloat \<Rightarrow> pyfloat" where
  "standard_result opr a b =
     (if opr = ''+'' then ieee_add a b else if opr = ''-'' then ieee_sub a b
      else if opr = ''*'' then ieee_mul a b else ieee_div a b)"

text \<open>The days that a listing of all days names, in the order of the output: one
  \<open>DayCount\<close> line per day in the history view, one \<open>DayLabel\<close> line per day in the
  statistics view.\<close>

fun listed_days :: "out list \<Rightarrow> int list" where
  "listed_days [] = []"
| "listed_days (DayCount day n # os) = day # listed_days os"
| "listed_days (DayLabel day # os) = day # listed_days os"
| "listed_days (x # os) = listed_days os"

section \<open>Rounding\<close>

lemma round_half_even_of_int [simp]: "round_half_even (of_int k) = k"
  by (simp add: round_half_even_def)

lemma round_half_even_near: "\<bar>of_int (round_half_even t) - t\<bar> \<le> 1 / 2"
proof -
  have "of_int \<lfloor>t\<rfloor> \<le> t" "t < of_int \<lfloor>t\<rfloor> + 1" by linarith+
  then show ?thesis
    by (auto simp add: round_half_even_def Let_def)
qed

lemma exponent_from_spec:
  assumes "a < 2 powi (s + 1)" and "2 powi (s - int n) \<le> a"
  shows "2 powi (exponent_from n s a) \<le> a \<and> a < 2 powi (exponent_from n s a + 1)"
  using assms
proof (induction n arbitrary: s)
  case 0
  then show ?case by simp
next
  case (Suc n)
  show ?case
  proof (cases "2 powi s \<le> a")
    case True
    with Suc.prems show ?thesis by simp
  next
    case False
    then have "a < 2 powi ((s - 1) + 1)" by simp
    moreover have "2 powi ((s - 1) - int n) \<le> a"
      using Suc.prems(2) by (simp add: algebra_simps)
    ultimately show ?thesis
      using Suc.IH [of "s - 1"] False by simp
  qed
qed

lemma exponent_unique:
  fixes a :: real
  assumes "2 powi e \<le> a" "a < 2 powi (e + 1)" "2 powi e' \<le> a" "a < 2 powi (e' + 1)"
  shows "e = e'"
proof (rule ccontr)
  assume "e \<noteq> e'"
  then consider "e + 1 \<le> e'" | "e' + 1 \<le> e" by linarith
  then show False
  proof cases
    case 1
    then have "(2::real) powi (e + 1) \<le> 2 powi e'" by (intro power_int_increasing) simp_all
    with assms show False by linarith
  next
    case 2
    then have "(2::real) powi (e' + 1) \<le> 2 powi e" by (intro power_int_increasing) simp_all
    with assms show False by linarith
  qed
qed

lemma double_exponent_eq:
  assumes "2 powi e \<le> a" and "a < 2 powi (e + 1)" and "- 1022 \<le> e" and "e \<le> 1023"
  shows "double_exponent a = e"
proof -
  have "(2::real) powi (e + 1) \<le> 2 powi 1024"
    using assms(4) by (intro power_int_increasing) simp_all
  with assms(2) have hi: "a < 2 powi (1023 + 1)" by simp
  have "(2::real) powi (- 1022) \<le> 2 powi e"
    using assms(3) by (intro power_int_increasing) simp_all
  with assms(1) have lo: "2 powi (1023 - int 2045) \<le> a" by simp
  from exponent_from_spec [OF hi lo]
  have "2 powi (double_exponent a) \<le> a \<and> a < 2 powi (double_exponent a + 1)"
    by (simp add: double_exponent_def)
  with assms(1,2) show ?thesis by (auto intro: exponent_unique)
qed

lemma double_exponent_normal:
  assumes "2 powi (- 1022) \<le> a" and "a < 2 powi 1024"
  shows "2 powi (double_exponent a) \<le> a \<and> a < 2 powi (double_exponent a + 1)"
proof -
  from assms have hi: "a < 2 powi (1023 + 1)" and lo: "2 powi (1023 - int 2045) \<le> a"
    by simp_all
  from exponent_from_spec [OF hi lo] show ?thesis by (simp add: double_exponent_def)
qed

lemma exponent_from_range: "s - int n \<le> exponent_from n s a \<and> exponent_from n s a \<le> s"
proof (induction n arbitrary: s)
  case 0
  show ?case by simp
next
  case (Suc n)
  from Suc.IH [of "s - 1"] show ?case by auto
qed

lemma double_exponent_range: "- 1022 \<le> double_exponent a \<and> double_exponent a \<le> 1023"
  using exponent_from_range [of 1023 2045 a] by (simp add: double_exponent_def)

lemma double_round_exact:
  assumes "2 powi e \<le> \<bar>x\<bar>" and "\<bar>x\<bar> < 2 powi (e + 1)" and "- 1022 \<le> e" and "e \<le> 1023"
    and "\<bar>x\<bar> / 2 powi (e - 52) = of_int k"
  shows "double_round x = Fin x"
proof -
  have e: "double_exponent \<bar>x\<bar> = e"
    using assms(1-4) by (rule double_exponent_eq)
  have q: "(0::real) < 2 powi (e - 52)" by simp
  have "of_int k * 2 powi (e - 52) = \<bar>x\<bar>"
    using assms(5) q by (simp add: field_simps del: zero_less_power_int)
  then have m: "of_int (round_half_even (\<bar>x\<bar> / 2 powi (e - 52))) * 2 powi (e - 52) = \<bar>x\<bar>"
    unfolding assms(5) round_half_even_of_int .
  have "(2::real) powi (e + 1) \<le> 2 powi 1024"
    using assms(4) by (intro power_int_increasing) simp_all
  with assms(2) have "\<not> 2 powi 1024 \<le> \<bar>x\<bar>" by simp
  then show ?thesis
    unfolding double_round_def Let_def e m by (simp add: abs_if)
qed

lemma double_round_tolerance:
  assumes "2 powi (- 1022) \<le> \<bar>r\<bar>" and "\<bar>r\<bar> < 2 powi 1024 - 2 powi 970"
  shows "\<exists>z. double_round r = Fin z \<and> \<bar>z - r\<bar> \<le> \<bar>r\<bar> * 2 powi (- 53)"
proof -
  define a where "a = \<bar>r\<bar>"
  define e where "e = double_exponent a"
  define q :: real where "q = 2 powi (e - 52)"
  define m where "m = of_int (round_half_even (a / q)) * q"
  have "a < 2 powi 1024" using assms(2) by (simp add: a_def)
  with assms(1) have ex: "2 powi e \<le> a" "a < 2 powi (e + 1)"
    using double_exponent_normal [of a] by (simp_all add: a_def e_def)
  have range: "e \<le> 1023" using double_exponent_range [of a] by (simp add: e_def)
  have qpos: "0 < q" by (simp add: q_def)
  have half: "q / 2 = 2 powi e * 2 powi (- 53)"
    by (simp add: q_def power_int_diff power_int_minus_divide)
  have "\<bar>of_int (round_half_even (a / q)) - a / q\<bar> * q \<le> (1 / 2) * q"
    using round_half_even_near [of "a / q"] qpos by (intro mult_right_mono) simp_all
  moreover have "m - a = (of_int (round_half_even (a / q)) - a / q) * q"
    using qpos by (simp add: m_def field_simps)
  then have "\<bar>m - a\<bar> = \<bar>of_int (round_half_even (a / q)) - a / q\<bar> * q"
    using qpos by (simp add: abs_mult)
  ultimately have near: "\<bar>m - a\<bar> \<le> q / 2" by simp
  have "2 powi e * 2 powi (- 53) \<le> a * 2 powi (- 53)"
    using ex(1) by (intro mult_right_mono) simp_all
  with near half have tol: "\<bar>m - a\<bar> \<le> a * 2 powi (- 53)" by simp
  have fin: "m < 2 powi 1024"
  proof (cases "e = 1023")
    case True
    then have "q / 2 = 2 powi 970" by (simp add: q_def)
    with near assms(2) show ?thesis by (simp add: a_def)
  next
    case False
    with range have "e + 1 \<le> 1023" by simp
    then have "(2::real) powi (e + 1) \<le> 2 powi 1023"
      by (intro power_int_increasing) simp_all
    with ex(2) have a: "a < 2 powi 1023" by simp
    have "(2::real) powi (- 53) \<le> 1" by (simp add: power_int_minus_divide)
    moreover have "0 \<le> a" by (simp add: a_def)
    ultimately have "a * 2 powi (- 53) \<le> a * 1" by (intro mult_left_mono)
    then have "a * 2 powi (- 53) \<le> a" by (simp only: mult_1_right)
    with tol have "m \<le> 2 * a" by linarith
    with a show ?thesis by simp
  qed
  have r: "double_round r = Fin (if 0 < r then m else - m)"
    using fin unfolding double_round_def Let_def a_def [symmetric] e_def [symmetric]
      q_def [symmetric] m_def [symmetric] by simp
  have "\<bar>(if 0 < r then m else - m) - r\<bar> = \<bar>m - a\<bar>"
    by (simp add: a_def abs_if)
  with tol r show ?thesis by (simp add: a_def)
qed

lemma double_round_overflow: "double_round (2 powi 1023 * 2) = PInf"
proof -
  have e: "double_exponent \<bar>2 powi 1023 * 2\<bar> = 1023"
    using exponent_from.simps(2) [of 2044 1023 "\<bar>2 powi 1023 * 2\<bar>"]
    by (simp add: double_exponent_def)
  have "\<bar>(2::real) powi 1023 * 2\<bar> / 2 powi (1023 - 52) = of_int (2 ^ 53)"
    by simp
  then have m: "of_int (round_half_even (\<bar>(2::real) powi 1023 * 2\<bar> / 2 powi (1023 - 52)))
      * 2 powi (1023 - 52) = (2::real) powi 1024"
    by (simp only: round_half_even_of_int) simp
  show ?thesis
    unfolding double_round_def Let_def e m by simp
qed

lemma double_round_examples:
  "double_round 0 = Fin 0" "double_round 5 = Fin 5" "double_round 8 = Fin 8"
  "double_round 12 = Fin 12" "double_round 16 = Fin 16" "double_round 21 = Fin 21"
  "double_round 24 = Fin 24" "double_round (21 / 2) = Fin (21 / 2)"
  "double_round (7 / 2) = Fin (7 / 2)"
proof -
  have "round_half_even 0 = 0" using round_half_even_of_int [of 0] by simp
  then show "double_round 0 = Fin 0" by (simp add: double_round_def Let_def)
  show "double_round 5 = Fin 5"
    by (rule double_round_exact [where e = 2 and k = "5 * 2 ^ 50"]) simp_all
  show "double_round 8 = Fin 8"
    by (rule double_round_exact [where e = 3 and k = "2 ^ 52"]) simp_all
  show "double_round 12 = Fin 12"
    by (rule double_round_exact [where e = 3 and k = "3 * 2 ^ 51"]) simp_all
  show "double_round 16 = Fin 16"
    by (rule double_round_exact [where e = 4 and k = "2 ^ 52"]) simp_all
  show "double_round 21 = Fin 21"
    by (rule double_round_exact [where e = 4 and k = "21 * 2 ^ 48"]) simp_all
  show "double_round 24 = Fin 24"
    by (rule double_round_exact [where e = 4 and k = "3 * 2 ^ 51"]) simp_all
  show "double_round (21 / 2) = Fin (21 / 2)"
    by (rule double_round_exact [where e = 3 and k = "21 * 2 ^ 48"]) simp_all
  show "double_round (7 / 2) = Fin (7 / 2)"
    by (rule double_round_exact [where e = 1 and k = "7 * 2 ^ 50"]) simp_all
qed

section \<open>The evaluator\<close>

lemma execute_operation_ieee:
  assumes "opr \<in> {''+'', ''-'', ''*'', ''/''}" and "opr = ''/'' \<longrightarrow> \<not> feq b (Fin 0)"
  shows "execute_operation a b opr = Inr (standard_result opr a b)"
proof -
  have add: "fadd a b = ieee_add a b"
    by (cases a; cases b; simp add: ieee_add_def is_inf_def)
  have sub: "fsub a b = ieee_sub a b"
    by (cases a; cases b; simp add: ieee_sub_def ieee_add_def is_inf_def)
  have mul: "fmul a b = ieee_mul a b"
    by (cases a; cases b; simp add: ieee_mul_def is_inf_def signed_inf_def)
  have quot: "\<not> feq b (Fin 0) \<Longrightarrow> fquot a b = ieee_div a b"
    by (cases a; cases b; simp add: ieee_div_def is_inf_def signed_inf_def feq_def)
  from assms add sub mul quot show ?thesis
    by (auto simp add: execute_operation_def standard_result_def truediv_def)
qed

text \<open>
  C2: for all floats \<open>a\<close> and \<open>b\<close> and each of the four operators, with \<open>b\<close> not equal
  to zero when the operator is \<open>/\<close>, \<open>execute_operation\<close> returns, without raising,
  the IEEE-754 result of the operator on \<open>a\<close> and \<open>b\<close>; and when the operands are
  finite and the mathematical result \<open>r\<close> is in the normal range, the value
  returned is finite and within \<open>\<bar>r\<bar> * 2 ^ -53\<close> of \<open>r\<close>.
\<close>

theorem execute_operation_standard:
  assumes "opr \<in> {''+'', ''-'', ''*'', ''/''}" and "opr = ''/'' \<longrightarrow> \<not> feq b (Fin 0)"
  shows "execute_operation a b opr = Inr (standard_result opr a b) \<and>
         (\<forall>x y. a = Fin x \<and> b = Fin y \<and>
                2 powi (- 1022) \<le> \<bar>exact_result opr x y\<bar> \<and>
                \<bar>exact_result opr x y\<bar> < 2 powi 1024 - 2 powi 970 \<longrightarrow>
            (\<exists>z. execute_operation a b opr = Inr (Fin z) \<and>
                 \<bar>z - exact_result opr x y\<bar> \<le> \<bar>exact_result opr x y\<bar> * 2 powi (- 53)))"
proof -
  have ieee: "execute_operation a b opr = Inr (standard_result opr a b)"
    using assms by (rule execute_operation_ieee)
  have "\<exists>z. execute_operation a b opr = Inr (Fin z) \<and>
            \<bar>z - exact_result opr x y\<bar> \<le> \<bar>exact_result opr x y\<bar> * 2 powi (- 53)"
    if ab: "a = Fin x" "b = Fin y"
      and lo: "2 powi (- 1022) \<le> \<bar>exact_result opr x y\<bar>"
      and hi: "\<bar>exact_result opr x y\<bar> < 2 powi 1024 - 2 powi 970"
    for x y
  proof -
    have "execute_operation a b opr = Inr (double_round (exact_result opr x y))"
      using assms ab
      by (auto simp add: execute_operation_def exact_result_def truediv_def)
    with double_round_tolerance [OF lo hi] show ?thesis by auto
  qed
  with ieee show ?thesis by blast
qed

theorem execute_operation_standard_witness:
  "''/'' \<in> {''+'', ''-'', ''*'', ''/''} \<and> \<not> feq (Fin 2) (Fin 0) \<and>
   execute_operation (Fin 7) (Fin 2) ''/'' = Inr (Fin (7 / 2)) \<and>
   execute_operation (Fin 5) (Fin 3) ''+'' = Inr (Fin 8) \<and>
   execute_operation (Fin (2 powi 1023)) (Fin 2) ''*'' = Inr PInf \<and>
   execute_operation PInf PInf ''-'' = Inr NaN \<and>
   2 powi (- 1022) \<le> \<bar>exact_result ''/'' 1 10\<bar> \<and>
   \<bar>exact_result ''/'' 1 10\<bar> < 2 powi 1024 - 2 powi 970 \<and>
   (\<exists>z. execute_operation (Fin 1) (Fin 10) ''/'' = Inr (Fin z) \<and>
        \<bar>z - exact_result ''/'' 1 10\<bar> \<le> \<bar>exact_result ''/'' 1 10\<bar> * 2 powi (- 53))"
proof -
  have 1: "execute_operation (Fin 7) (Fin 2) ''/'' = Inr (Fin (7 / 2))"
    using execute_operation_standard [of "''/''" "Fin 2" "Fin 7"]
    by (simp add: feq_def standard_result_def ieee_div_def is_inf_def double_round_examples)
  have 2: "execute_operation (Fin 5) (Fin 3) ''+'' = Inr (Fin 8)"
    using execute_operation_standard [of "''+''" "Fin 3" "Fin 5"]
    by (simp add: standard_result_def ieee_add_def is_inf_def double_round_examples)
  have 3: "execute_operation (Fin (2 powi 1023)) (Fin 2) ''*'' = Inr PInf"
    using execute_operation_standard [of "''*''" "Fin 2" "Fin (2 powi 1023)"]
    by (simp add: standard_result_def ieee_mul_def is_inf_def double_round_overflow
        del: power_int_numeral)
  have 4: "execute_operation PInf PInf ''-'' = Inr NaN"
    using execute_operation_standard [of "''-''" PInf PInf]
    by (simp add: standard_result_def ieee_sub_def ieee_add_def is_inf_def)
  have lo: "2 powi (- 1022) \<le> \<bar>exact_result ''/'' 1 10\<bar>"
    by (simp add: exact_result_def power_int_minus_divide)
  have hi: "\<bar>exact_result ''/'' 1 10\<bar> < 2 powi 1024 - 2 powi 970"
    by (simp add: exact_result_def)
  have ne: "''/'' = ''/'' \<longrightarrow> \<not> feq (Fin 10) (Fin 0)" by (simp add: feq_def)
  from execute_operation_standard [of "''/''" "Fin 10" "Fin 1"] ne lo hi
  have 5: "\<exists>z. execute_operation (Fin 1) (Fin 10) ''/'' = Inr (Fin z) \<and>
        \<bar>z - exact_result ''/'' 1 10\<bar> \<le> \<bar>exact_result ''/'' 1 10\<bar> * 2 powi (- 53)"
    by blast
  from 1 2 3 4 5 lo hi show ?thesis by (simp add: feq_def)
qed

text \<open>
  C8 as stated: \<open>execute_operation\<close> raises an error if and only if the operator is
  outside the four recognised symbols.  The division \<open>1.0 / 0.0\<close> is a case with a
  recognised operator in which it raises, namely \<open>ZeroDivisionError\<close>.
\<close>

theorem unknown_operation_counterexample:
  "\<not> (isl (execute_operation (Fin 1) (Fin 0) ''/'') \<longleftrightarrow> ''/'' \<notin> {''+'', ''-'', ''*'', ''/''})"
  by (simp add: execute_operation_def truediv_def feq_def)

text \<open>
  C8, amended: for every operator string outside the four recognised symbols
  \<open>execute_operation\<close> raises \<open>ValueError\<close> with the message "Unknown operation: "
  followed by the operator, and returns no value; it raises that \<open>ValueError\<close> if
  and only if the operator is outside the set; and it raises any exception if and
  only if the operator is outside the set or it is \<open>/\<close> with a divisor equal to
  zero.
\<close>

theorem execute_operation_errors:
  "(opr \<notin> {''+'', ''-'', ''*'', ''/''} \<longrightarrow>
      execute_operation a b opr = Inl (ValueError (''Unknown operation: '' @ opr))) \<and>
   ((\<exists>msg. execute_operation a b opr = Inl (ValueError msg)) \<longleftrightarrow>
      opr \<notin> {''+'', ''-'', ''*'', ''/''}) \<and>
   (isl (execute_operation a b opr) \<longleftrightarrow>
      opr \<notin> {''+'', ''-'', ''*'', ''/''} \<or> (opr = ''/'' \<and> feq b (Fin 0)))"
  by (auto simp add: execute_operation_def truediv_def)

theorem execute_operation_errors_witness:
  "''%'' \<notin> {''+'', ''-'', ''*'', ''/''} \<and>
   execute_operation (Fin 1) (Fin 2) ''%'' = Inl (ValueError ''Unknown operation: %'')"
  using execute_operation_errors [of "''%''" "Fin 1" "Fin 2"] by simp

section \<open>The menu loop and the store\<close>

text \<open>
  C3: when menu entry 1 is chosen with the operator \<open>/\<close> and a second operand equal
  to zero, \<open>validate_inputs\<close> prints the division-by-zero error and returns
  \<open>False\<close>; the iteration prints that error and nothing else, leaves the store (the
  history and the statistics) as it was, and goes on with the loop, although
  \<open>execute_operation\<close> on these inputs would have raised: it was not called.
\<close>

theorem division_by_zero_rejected:
  assumes "choice i = ''1''" and "entered_operation i = ''/''" and "feq (entered_num2 i) (Fin 0)"
  shows "validate_inputs (entered_num1 i) (entered_num2 i) (entered_operation i)
           = ([Text ''Error: Division by zero is not allowed!''], False) \<and>
         main_iteration i s = ([Text ''Error: Division by zero is not allowed!''], s, Continue) \<and>
         execute_operation (entered_num1 i) (entered_num2 i) (entered_operation i)
           = Inl ZeroDivisionError"
  using assms by (simp add: main_iteration_def validate_inputs_def execute_operation_def truediv_def)

theorem division_by_zero_rejected_witness:
  "main_iteration
     \<lparr>choice = ''1'', entered_num1 = Fin 10, entered_num2 = Fin 0, entered_operation = ''/'',
      entered_day = None, clock_day = 3, clock_timestamp = ''2026-11-03 12:00:00''\<rparr>
     empty_store
   = ([Text ''Error: Division by zero is not allowed!''], empty_store, Continue)"
  using division_by_zero_rejected
    [of "\<lparr>choice = ''1'', entered_num1 = Fin 10, entered_num2 = Fin 0, entered_operation = ''/'',
      entered_day = None, clock_day = 3, clock_timestamp = ''2026-11-03 12:00:00''\<rparr>" empty_store]
  by (simp add: feq_def)

text \<open>
  C9: an iteration with menu entry 2, 3, 4 or 5 leaves the store, that is both the
  history and the statistics, as it was; an iteration that changes the store is one
  with menu entry 1.
\<close>

theorem viewing_leaves_store_unchanged:
  "(choice i \<in> {''2'', ''3'', ''4'', ''5''} \<longrightarrow> fst (snd (main_iteration i s)) = s) \<and>
   (fst (snd (main_iteration i s)) \<noteq> s \<longrightarrow> choice i = ''1'')"
  by (auto simp add: main_iteration_def after_view_def split: option.splits)

theorem viewing_leaves_store_unchanged_witness:
  "''4'' \<in> {''2'', ''3'', ''4'', ''5''} \<and>
   fst (snd (main_iteration
     \<lparr>choice = ''4'', entered_num1 = Fin 0, entered_num2 = Fin 0, entered_operation = ''+'',
      entered_day = None, clock_day = 3, clock_timestamp = ''2026-11-03 12:00:00''\<rparr>
     empty_store)) = empty_store"
  using viewing_leaves_store_unchanged
    [of "\<lparr>choice = ''4'', entered_num1 = Fin 0, entered_num2 = Fin 0, entered_operation = ''+'',
      entered_day = None, clock_day = 3, clock_timestamp = ''2026-11-03 12:00:00''\<rparr>" empty_store]
  by simp

section \<open>Order facts about floats\<close>

lemma flt_not_NaN: "flt a b \<Longrightarrow> a \<noteq> NaN \<and> b \<noteq> NaN"
  by (cases a; cases b; simp)

lemma fle_refl: "a \<noteq> NaN \<Longrightarrow> fle a a"
  by (simp add: fle_def feq_def)

lemma flt_fle_trans: "flt a b \<Longrightarrow> fle b c \<Longrightarrow> fle a c"
  by (cases a; cases b; cases c; auto simp add: fle_def feq_def)

lemma fle_flt_trans: "fle a b \<Longrightarrow> flt b c \<Longrightarrow> fle a c"
  by (cases a; cases b; cases c; auto simp add: fle_def feq_def)

lemma not_flt_fle: "a \<noteq> NaN \<Longrightarrow> b \<noteq> NaN \<Longrightarrow> \<not> flt b a \<Longrightarrow> fle a b"
  by (cases a; cases b; simp add: fle_def feq_def; linarith)

lemma py_min_not_NaN: "m \<noteq> NaN \<Longrightarrow> py_min m r \<noteq> NaN"
  using flt_not_NaN by (auto simp add: py_min_def)

lemma py_max_not_NaN: "m \<noteq> NaN \<Longrightarrow> py_max m r \<noteq> NaN"
  using flt_not_NaN by (auto simp add: py_max_def)

lemma py_min_le_new: "m \<noteq> NaN \<Longrightarrow> r \<noteq> NaN \<Longrightarrow> fle (py_min m r) r"
  by (simp add: py_min_def fle_refl not_flt_fle)

lemma py_min_le_old: "fle m c \<Longrightarrow> fle (py_min m r) c"
  by (auto simp add: py_min_def intro: flt_fle_trans)

lemma py_max_ge_new: "m \<noteq> NaN \<Longrightarrow> r \<noteq> NaN \<Longrightarrow> fle r (py_max m r)"
  by (simp add: py_max_def fle_refl not_flt_fle)

lemma py_max_ge_old: "fle c m \<Longrightarrow> fle c (py_max m r)"
  by (auto simp add: py_max_def intro: fle_flt_trans)

section \<open>Writing to the store\<close>

lemma truediv_count:
  "c \<noteq> 0 \<Longrightarrow> truediv x (Fin (of_int c)) = Inr (fquot x (Fin (of_int c)))"
  by (simp add: truediv_def feq_def)

lemma update_daily_stats_other:
  "d \<noteq> day \<Longrightarrow> DAList.lookup (fst (update_daily_stats day res ds)) d = DAList.lookup ds d"
  by (simp add: update_daily_stats_def Let_def split: sum.splits)

lemma update_daily_stats_day:
  assumes "st = (case DAList.lookup ds day of None \<Rightarrow> new_stats | Some st0 \<Rightarrow> st0)"
    and "count st + 1 \<noteq> 0"
  shows "update_daily_stats day res ds =
           (DAList.update day
              \<lparr>count = count st + 1,
               sum_stat = fadd (sum_stat st) res,
               min_stat = py_min (min_stat st) res,
               max_stat = py_max (max_stat st) res,
               average = fquot (fadd (sum_stat st) res) (Fin (of_int (count st + 1)))\<rparr> ds,
            None)"
proof -
  have "truediv (fadd (sum_stat st) res) (Fin (of_int (count st + 1)))
          = Inr (fquot (fadd (sum_stat st) res) (Fin (of_int (count st + 1))))"
    using assms(2) by (rule truediv_count)
  then show ?thesis
    unfolding update_daily_stats_def Let_def assms(1)[symmetric] by (cases st) simp
qed

lemma store_calculation_history:
  "calculation_history (fst (store_calculation day now n1 n2 opr res s)) =
     DAList.update day
       (day_records (calculation_history s) day
          @ [\<lparr>timestamp = now, num1 = n1, num2 = n2, operation = opr, result = res\<rparr>])
       (calculation_history s)"
  by (simp add: store_calculation_def Let_def split: prod.splits)

lemma store_calculation_stats:
  "daily_stats (fst (store_calculation day now n1 n2 opr res s)) =
     fst (update_daily_stats day res (daily_stats s))"
  by (simp add: store_calculation_def Let_def split: prod.splits)

lemma store_calculation_error:
  "snd (store_calculation day now n1 n2 opr res s) =
     snd (update_daily_stats day res (daily_stats s))"
  by (simp add: store_calculation_def Let_def split: prod.splits)

lemma update_daily_stats_raise:
  assumes "st = (case DAList.lookup ds day of None \<Rightarrow> new_stats | Some st0 \<Rightarrow> st0)"
    and "count st + 1 = 0"
  shows "update_daily_stats day res ds =
           (DAList.update day
              \<lparr>count = 0,
               sum_stat = fadd (sum_stat st) res,
               min_stat = py_min (min_stat st) res,
               max_stat = py_max (max_stat st) res,
               average = average st\<rparr> ds,
            Some ZeroDivisionError)"
  unfolding update_daily_stats_def Let_def assms(1)[symmetric]
  using assms(2) by (cases st) (simp add: truediv_def feq_def)

section \<open>Invariants of the reachable stores\<close>

text \<open>What holds of every day in a reachable store: a day without statistics has no
  history entry; a day with statistics has a non-empty record sequence whose length
  is the count, its average is the quotient of sum and count, its minimum and
  maximum are not NaN and bound every recorded result that is not NaN.\<close>

lemma reachable_invariant:
  assumes "reachable s"
  shows "case DAList.lookup (daily_stats s) d of
           None \<Rightarrow> DAList.lookup (calculation_history s) d = None
         | Some st \<Rightarrow>
             (\<exists>cs. DAList.lookup (calculation_history s) d = Some cs \<and> cs \<noteq> [] \<and>
                   count st = int (length cs) \<and>
                   average st = fquot (sum_stat st) (Fin (of_int (count st))) \<and>
                   min_stat st \<noteq> NaN \<and> max_stat st \<noteq> NaN \<and>
                   (\<forall>c \<in> set cs. result c \<noteq> NaN \<longrightarrow>
                      fle (min_stat st) (result c) \<and> fle (result c) (max_stat st)))"
  using assms
proof (induction arbitrary: d)
  case reachable_empty
  show ?case by (simp add: empty_store_def)
next
  case (reachable_store s d0 now n1 n2 opr res)
  let ?s' = "fst (store_calculation d0 now n1 n2 opr res s)"
  let ?rec = "\<lparr>timestamp = now, num1 = n1, num2 = n2, operation = opr, result = res\<rparr>"
  show ?case
  proof (cases "d = d0")
    case False
    then have same: "DAList.lookup (daily_stats ?s') d = DAList.lookup (daily_stats s) d"
      "DAList.lookup (calculation_history ?s') d = DAList.lookup (calculation_history s) d"
      by (simp_all add: store_calculation_history store_calculation_stats
          update_daily_stats_other)
    show ?thesis unfolding same by (rule reachable_store.IH)
  next
    case True
    define st where
      "st = (case DAList.lookup (daily_stats s) d0 of None \<Rightarrow> new_stats | Some st0 \<Rightarrow> st0)"
    define cs where "cs = day_records (calculation_history s) d0"
    have old: "count st = int (length cs) \<and> min_stat st \<noteq> NaN \<and> max_stat st \<noteq> NaN \<and>
               (\<forall>c \<in> set cs. result c \<noteq> NaN \<longrightarrow>
                  fle (min_stat st) (result c) \<and> fle (result c) (max_stat st))"
      using reachable_store.IH [of d0]
      by (auto simp add: st_def cs_def day_records_def new_stats_def split: option.splits)
    then have nz: "count st + 1 \<noteq> 0" by simp
    have stats': "DAList.lookup (daily_stats ?s') d0 = Some
              \<lparr>count = count st + 1,
               sum_stat = fadd (sum_stat st) res,
               min_stat = py_min (min_stat st) res,
               max_stat = py_max (max_stat st) res,
               average = fquot (fadd (sum_stat st) res) (Fin (of_int (count st + 1)))\<rparr>"
      by (simp add: store_calculation_stats update_daily_stats_day [OF st_def nz])
    have hist': "DAList.lookup (calculation_history ?s') d0 = Some (cs @ [?rec])"
      by (simp add: store_calculation_history cs_def)
    have bounds: "\<forall>c \<in> set (cs @ [?rec]). result c \<noteq> NaN \<longrightarrow>
             fle (py_min (min_stat st) res) (result c) \<and>
             fle (result c) (py_max (max_stat st) res)"
      using old by (auto intro: py_min_le_new py_min_le_old py_max_ge_new py_max_ge_old)
    show ?thesis
      unfolding True stats' hist'
      using old bounds by (simp add: py_min_not_NaN py_max_not_NaN)
  qed
qed

lemma reachable_store_no_error:
  assumes "reachable s"
  shows "snd (store_calculation day now n1 n2 opr res s) = None"
proof -
  define st where
    "st = (case DAList.lookup (daily_stats s) day of None \<Rightarrow> new_stats | Some st0 \<Rightarrow> st0)"
  have "0 \<le> count st"
    using reachable_invariant [OF assms, of day]
    by (auto simp add: st_def new_stats_def split: option.splits)
  then have "count st + 1 \<noteq> 0" by simp
  then show ?thesis
    by (simp add: store_calculation_error update_daily_stats_day [OF st_def])
qed

text \<open>
  C10: \<open>store_calculation\<close> puts exactly one record, the one built from its
  arguments, at the end of the record sequence of the current day, so the earlier
  records of that day keep their order; for every other day both the record
  sequence and the statistics entry are as before; and the statistics entry of
  the current day becomes the entry it had (the fresh entry when it had none)
  with the count advanced by one, the result added to the sum and taken into the
  minimum and the maximum, and the average set to the quotient of the new sum and
  the new count.  Only when the new count is zero, which no reachable store
  allows, does the division raise and the average stay as it was.
\<close>

theorem store_calculation_frame:
  assumes "st = (case DAList.lookup (daily_stats s) day of None \<Rightarrow> new_stats | Some st0 \<Rightarrow> st0)"
    and "s' = fst (store_calculation day now n1 n2 opr res s)"
  shows "day_records (calculation_history s') day
           = day_records (calculation_history s) day
               @ [\<lparr>timestamp = now, num1 = n1, num2 = n2, operation = opr, result = res\<rparr>] \<and>
         (\<forall>d. d \<noteq> day \<longrightarrow>
            DAList.lookup (calculation_history s') d = DAList.lookup (calculation_history s) d \<and>
            DAList.lookup (daily_stats s') d = DAList.lookup (daily_stats s) d) \<and>
         (count st + 1 \<noteq> 0 \<longrightarrow>
            DAList.lookup (daily_stats s') day = Some
              \<lparr>count = count st + 1,
               sum_stat = fadd (sum_stat st) res,
               min_stat = py_min (min_stat st) res,
               max_stat = py_max (max_stat st) res,
               average = fquot (fadd (sum_stat st) res) (Fin (of_int (count st + 1)))\<rparr> \<and>
            snd (store_calculation day now n1 n2 opr res s) = None) \<and>
         (count st + 1 = 0 \<longrightarrow>
            DAList.lookup (daily_stats s') day = Some
              \<lparr>count = 0,
               sum_stat = fadd (sum_stat st) res,
               min_stat = py_min (min_stat st) res,
               max_stat = py_max (max_stat st) res,
               average = average st\<rparr> \<and>
            snd (store_calculation day now n1 n2 opr res s) = Some ZeroDivisionError) \<and>
         (reachable s \<longrightarrow> count st + 1 \<noteq> 0)"
proof -
  have records: "day_records (calculation_history s') day
           = day_records (calculation_history s) day
               @ [\<lparr>timestamp = now, num1 = n1, num2 = n2, operation = opr, result = res\<rparr>]"
    by (simp add: assms(2) store_calculation_history day_records_def)
  have others: "\<forall>d. d \<noteq> day \<longrightarrow>
            DAList.lookup (calculation_history s') d = DAList.lookup (calculation_history s) d \<and>
            DAList.lookup (daily_stats s') d = DAList.lookup (daily_stats s) d"
    by (simp add: assms(2) store_calculation_history store_calculation_stats
        update_daily_stats_other)
  have updated: "count st + 1 \<noteq> 0 \<longrightarrow>
            DAList.lookup (daily_stats s') day = Some
              \<lparr>count = count st + 1,
               sum_stat = fadd (sum_stat st) res,
               min_stat = py_min (min_stat st) res,
               max_stat = py_max (max_stat st) res,
               average = fquot (fadd (sum_stat st) res) (Fin (of_int (count st + 1)))\<rparr> \<and>
            snd (store_calculation day now n1 n2 opr res s) = None"
    by (simp add: assms(2) store_calculation_stats store_calculation_error
        update_daily_stats_day [OF assms(1)])
  have raised: "count st + 1 = 0 \<longrightarrow>
            DAList.lookup (daily_stats s') day = Some
              \<lparr>count = 0,
               sum_stat = fadd (sum_stat st) res,
               min_stat = py_min (min_stat st) res,
               max_stat = py_max (max_stat st) res,
               average = average st\<rparr> \<and>
            snd (store_calculation day now n1 n2 opr res s) = Some ZeroDivisionError"
    by (simp add: assms(2) store_calculation_stats store_calculation_error
        update_daily_stats_raise [OF assms(1)])
  have reach: "reachable s \<longrightarrow> count st + 1 \<noteq> 0"
  proof
    assume "reachable s"
    from reachable_invariant [OF this, of day] have "0 \<le> count st"
      by (auto simp add: assms(1) new_stats_def split: option.splits)
    then show "count st + 1 \<noteq> 0" by simp
  qed
  from records others updated raised reach show ?thesis by blast
qed

theorem store_calculation_frame_witness:
  "reachable
     (fst (store_calculation 3 ''2026-11-03 12:00:00'' (Fin 4) (Fin 4) ''*'' (Fin 16)
        (fst (store_calculation 2 ''2026-11-02 08:30:00'' (Fin 10) (Fin 2) ''/'' (Fin 5)
           empty_store)))) \<and>
   (2::int) \<noteq> 3 \<and>
   DAList.lookup (calculation_history
     (fst (store_calculation 3 ''2026-11-03 12:05:00'' (Fin 5) (Fin 3) ''+'' (Fin 8)
        (fst (store_calculation 3 ''2026-11-03 12:00:00'' (Fin 4) (Fin 4) ''*'' (Fin 16)
           (fst (store_calculation 2 ''2026-11-02 08:30:00'' (Fin 10) (Fin 2) ''/'' (Fin 5)
              empty_store))))))) 2
     = Some [\<lparr>timestamp = ''2026-11-02 08:30:00'', num1 = Fin 10, num2 = Fin 2,
              operation = ''/'', result = Fin 5\<rparr>] \<and>
   DAList.lookup (daily_stats
     (fst (store_calculation 3 ''2026-11-03 12:05:00'' (Fin 5) (Fin 3) ''+'' (Fin 8)
        (fst (store_calculation 3 ''2026-11-03 12:00:00'' (Fin 4) (Fin 4) ''*'' (Fin 16)
           (fst (store_calculation 2 ''2026-11-02 08:30:00'' (Fin 10) (Fin 2) ''/'' (Fin 5)
              empty_store))))))) 2
     = Some \<lparr>count = 1, sum_stat = Fin 5, min_stat = Fin 5, max_stat = Fin 5, average = Fin 5\<rparr> \<and>
   day_records (calculation_history
     (fst (store_calculation 3 ''2026-11-03 12:05:00'' (Fin 5) (Fin 3) ''+'' (Fin 8)
        (fst (store_calculation 3 ''2026-11-03 12:00:00'' (Fin 4) (Fin 4) ''*'' (Fin 16)
           (fst (store_calculation 2 ''2026-11-02 08:30:00'' (Fin 10) (Fin 2) ''/'' (Fin 5)
              empty_store))))))) 3
     = [\<lparr>timestamp = ''2026-11-03 12:00:00'', num1 = Fin 4, num2 = Fin 4,
         operation = ''*'', result = Fin 16\<rparr>,
        \<lparr>timestamp = ''2026-11-03 12:05:00'', num1 = Fin 5, num2 = Fin 3,
         operation = ''+'', result = Fin 8\<rparr>] \<and>
   DAList.lookup (daily_stats
     (fst (store_calculation 3 ''2026-11-03 12:05:00'' (Fin 5) (Fin 3) ''+'' (Fin 8)
        (fst (store_calculation 3 ''2026-11-03 12:00:00'' (Fin 4) (Fin 4) ''*'' (Fin 16)
           (fst (store_calculation 2 ''2026-11-02 08:30:00'' (Fin 10) (Fin 2) ''/'' (Fin 5)
              empty_store))))))) 3
     = Some \<lparr>count = 2, sum_stat = Fin 24, min_stat = Fin 8, max_stat = Fin 16,
             average = Fin 12\<rparr>"
proof -
  let ?s = "fst (store_calculation 3 ''2026-11-03 12:00:00'' (Fin 4) (Fin 4) ''*'' (Fin 16)
        (fst (store_calculation 2 ''2026-11-02 08:30:00'' (Fin 10) (Fin 2) ''/'' (Fin 5)
           empty_store)))"
  let ?s' = "fst (store_calculation 3 ''2026-11-03 12:05:00'' (Fin 5) (Fin 3) ''+'' (Fin 8) ?s)"
  let ?st = "\<lparr>count = 1, sum_stat = Fin 16, min_stat = Fin 16, max_stat = Fin 16,
              average = Fin 16\<rparr>"
  have r: "reachable ?s"
    by (intro reachable_store reachable_empty)
  have old: "DAList.lookup (calculation_history ?s) 2
       = Some [\<lparr>timestamp = ''2026-11-02 08:30:00'', num1 = Fin 10, num2 = Fin 2,
              operation = ''/'', result = Fin 5\<rparr>]"
    "DAList.lookup (daily_stats ?s) 2
       = Some \<lparr>count = 1, sum_stat = Fin 5, min_stat = Fin 5, max_stat = Fin 5, average = Fin 5\<rparr>"
    "day_records (calculation_history ?s) 3
       = [\<lparr>timestamp = ''2026-11-03 12:00:00'', num1 = Fin 4, num2 = Fin 4,
            operation = ''*'', result = Fin 16\<rparr>]"
    by (simp_all add: store_calculation_def update_daily_stats_def empty_store_def new_stats_def
        truediv_def feq_def py_min_def py_max_def double_round_examples day_records_def Let_def)
  have st: "?st = (case DAList.lookup (daily_stats ?s) 3 of
                     None \<Rightarrow> new_stats | Some st0 \<Rightarrow> st0)"
    by (simp add: store_calculation_def update_daily_stats_def empty_store_def new_stats_def
        truediv_def feq_def py_min_def py_max_def double_round_examples Let_def)
  have two: "(2::int) \<noteq> 3" by simp
  have nz: "count ?st + 1 \<noteq> 0" by simp
  from store_calculation_frame [OF st refl, of "''2026-11-03 12:05:00''" "Fin 5" "Fin 3"
      "''+''" "Fin 8"] two nz
  have "DAList.lookup (calculation_history ?s') 2 = DAList.lookup (calculation_history ?s) 2"
    and "DAList.lookup (daily_stats ?s') 2 = DAList.lookup (daily_stats ?s) 2"
    and "day_records (calculation_history ?s') 3
           = day_records (calculation_history ?s) 3
               @ [\<lparr>timestamp = ''2026-11-03 12:05:00'', num1 = Fin 5, num2 = Fin 3,
                    operation = ''+'', result = Fin 8\<rparr>]"
    and "DAList.lookup (daily_stats ?s') 3 = Some
              \<lparr>count = count ?st + 1,
               sum_stat = fadd (sum_stat ?st) (Fin 8),
               min_stat = py_min (min_stat ?st) (Fin 8),
               max_stat = py_max (max_stat ?st) (Fin 8),
               average = fquot (fadd (sum_stat ?st) (Fin 8)) (Fin (of_int (count ?st + 1)))\<rparr>"
    by blast+
  with old r show ?thesis
    by (simp add: py_min_def py_max_def double_round_examples)
qed

text \<open>
  C4: in every store reachable from the empty one by store operations, a day is a
  key of the statistics if and only if it is a key of the history with at least one
  record, and the count of its statistics is the length of its record sequence.
\<close>

theorem statistics_keys_and_count:
  assumes "reachable s"
  shows "(DAList.lookup (daily_stats s) d \<noteq> None \<longleftrightarrow>
            DAList.lookup (calculation_history s) d \<noteq> None \<and>
            day_records (calculation_history s) d \<noteq> []) \<and>
         (\<forall>st. DAList.lookup (daily_stats s) d = Some st \<longrightarrow>
            count st = int (length (day_records (calculation_history s) d)))"
  using reachable_invariant [OF assms, of d]
  by (auto simp add: day_records_def split: option.splits)

theorem statistics_keys_and_count_witness:
  "reachable (fst (store_calculation 3 ''2026-11-03 12:00:00'' (Fin 5) (Fin 3) ''+'' (Fin 8)
      empty_store)) \<and>
   DAList.lookup (daily_stats (fst (store_calculation 3 ''2026-11-03 12:00:00'' (Fin 5) (Fin 3)
      ''+'' (Fin 8) empty_store))) 3
     = Some \<lparr>count = 1, sum_stat = Fin 8, min_stat = Fin 8, max_stat = Fin 8, average = Fin 8\<rparr> \<and>
   length (day_records (calculation_history (fst (store_calculation 3 ''2026-11-03 12:00:00''
      (Fin 5) (Fin 3) ''+'' (Fin 8) empty_store))) 3) = 1"
proof -
  have r: "reachable (fst (store_calculation 3 ''2026-11-03 12:00:00'' (Fin 5) (Fin 3) ''+''
      (Fin 8) empty_store))"
    by (rule reachable_store [OF reachable_empty])
  have "DAList.lookup (daily_stats (fst (store_calculation 3 ''2026-11-03 12:00:00'' (Fin 5)
      (Fin 3) ''+'' (Fin 8) empty_store))) 3
     = Some \<lparr>count = 1, sum_stat = Fin 8, min_stat = Fin 8, max_stat = Fin 8, average = Fin 8\<rparr>"
    by (simp add: store_calculation_def update_daily_stats_def empty_store_def new_stats_def
        truediv_def feq_def py_min_def py_max_def double_round_examples Let_def)
  with r statistics_keys_and_count [OF r, of 3] show ?thesis by simp
qed

text \<open>
  C5 as stated: in every reachable store the minimum of a day is less than or equal
  to every result recorded for it, and every such result is less than or equal to
  the maximum.  Entering \<open>nan + 1\<close> on an empty store records the result NaN; the
  comparisons of \<open>min\<close> and \<open>max\<close> with NaN are false, so the minimum stays
  \<open>inf\<close> and the maximum \<open>-inf\<close>, and neither \<open>inf <= nan\<close> nor \<open>nan <= -inf\<close> holds.
\<close>

theorem statistics_bounds_counterexample:
  "reachable (fst (store_calculation 1 ''2026-11-01 09:00:00'' NaN (Fin 1) ''+'' NaN empty_store)) \<and>
   execute_operation NaN (Fin 1) ''+'' = Inr NaN \<and>
   DAList.lookup (daily_stats (fst (store_calculation 1 ''2026-11-01 09:00:00'' NaN (Fin 1) ''+''
      NaN empty_store))) 1
     = Some \<lparr>count = 1, sum_stat = NaN, min_stat = PInf, max_stat = NInf, average = NaN\<rparr> \<and>
   day_records (calculation_history (fst (store_calculation 1 ''2026-11-01 09:00:00'' NaN (Fin 1)
      ''+'' NaN empty_store))) 1
     = [\<lparr>timestamp = ''2026-11-01 09:00:00'', num1 = NaN, num2 = Fin 1, operation = ''+'',
         result = NaN\<rparr>] \<and>
   \<not> fle PInf NaN \<and> \<not> fle NaN NInf"
proof -
  have "reachable (fst (store_calculation 1 ''2026-11-01 09:00:00'' NaN (Fin 1) ''+'' NaN
      empty_store))"
    by (rule reachable_store [OF reachable_empty])
  then show ?thesis
    by (simp add: execute_operation_def
        store_calculation_def update_daily_stats_def empty_store_def new_stats_def
        truediv_def feq_def fle_def py_min_def py_max_def day_records_def Let_def)
qed

text \<open>
  C5, amended: in every reachable store, for every day with statistics, the count
  is positive, the stored average is the value of \<open>sum / count\<close> (which does not
  raise), and every result recorded for the day that is not NaN lies between the
  minimum and the maximum.  Equality of the average is identity of the float: when
  the sum is NaN so is the average.
\<close>

theorem statistics_average_and_bounds:
  assumes "reachable s" and "DAList.lookup (daily_stats s) d = Some st"
  shows "0 < count st \<and>
         truediv (sum_stat st) (Fin (of_int (count st))) = Inr (average st) \<and>
         (\<forall>c \<in> set (day_records (calculation_history s) d). result c \<noteq> NaN \<longrightarrow>
            fle (min_stat st) (result c) \<and> fle (result c) (max_stat st))"
proof -
  from reachable_invariant [OF assms(1), of d] assms(2)
  obtain cs where cs: "DAList.lookup (calculation_history s) d = Some cs" "cs \<noteq> []"
    "count st = int (length cs)"
    "average st = fquot (sum_stat st) (Fin (of_int (count st)))"
    "\<forall>c \<in> set cs. result c \<noteq> NaN \<longrightarrow>
       fle (min_stat st) (result c) \<and> fle (result c) (max_stat st)"
    by auto
  from cs(2,3) have pos: "0 < count st" by simp
  then have "truediv (sum_stat st) (Fin (of_int (count st))) = Inr (average st)"
    by (simp add: truediv_count cs(4))
  with pos cs(1,5) show ?thesis by (simp add: day_records_def)
qed

theorem statistics_average_and_bounds_witness:
  "reachable (fst (store_calculation 3 ''2026-11-03 12:05:00'' (Fin 4) (Fin 4) ''*'' (Fin 16)
      (fst (store_calculation 3 ''2026-11-03 12:00:00'' (Fin 10) (Fin 2) ''/'' (Fin 5)
         empty_store)))) \<and>
   DAList.lookup (daily_stats (fst (store_calculation 3 ''2026-11-03 12:05:00'' (Fin 4) (Fin 4)
      ''*'' (Fin 16)
      (fst (store_calculation 3 ''2026-11-03 12:00:00'' (Fin 10) (Fin 2) ''/'' (Fin 5)
         empty_store))))) 3
     = Some \<lparr>count = 2, sum_stat = Fin 21, min_stat = Fin 5, max_stat = Fin 16,
             average = Fin (21 / 2)\<rparr> \<and>
   truediv (Fin 21) (Fin (of_int 2)) = Inr (Fin (21 / 2))"
proof -
  let ?s = "fst (store_calculation 3 ''2026-11-03 12:05:00'' (Fin 4) (Fin 4) ''*'' (Fin 16)
      (fst (store_calculation 3 ''2026-11-03 12:00:00'' (Fin 10) (Fin 2) ''/'' (Fin 5)
         empty_store)))"
  have r: "reachable ?s"
    by (intro reachable_store reachable_empty)
  have l: "DAList.lookup (daily_stats ?s) 3
     = Some \<lparr>count = 2, sum_stat = Fin 21, min_stat = Fin 5, max_stat = Fin 16,
             average = Fin (21 / 2)\<rparr>"
    by (simp add: store_calculation_def update_daily_stats_def empty_store_def new_stats_def
        truediv_def feq_def py_min_def py_max_def double_round_examples day_records_def Let_def)
  from statistics_average_and_bounds [OF r l] r l show ?thesis by simp
qed

section \<open>The statistics after a sequence of appends\<close>

text \<open>Appending to a day whose entry (or the fresh entry, when it has none) has a
  count that is not negative never raises, and leaves the entry with the count
  advanced by the number of appends and with sum, minimum and maximum folded over
  the results in the order of the appends.\<close>

lemma append_all_stats:
  assumes "st0 = (case DAList.lookup (daily_stats s) day of None \<Rightarrow> new_stats | Some st \<Rightarrow> st)"
    and "0 \<le> count st0"
  shows "\<exists>s'. append_all day cs s = (s', None) \<and>
           (case DAList.lookup (daily_stats s') day of None \<Rightarrow> new_stats | Some st \<Rightarrow> st) =
             \<lparr>count = count st0 + int (length cs),
              sum_stat = foldl fadd (sum_stat st0) (map result cs),
              min_stat = foldl py_min (min_stat st0) (map result cs),
              max_stat = foldl py_max (max_stat st0) (map result cs),
              average =
                (if cs = [] then average st0
                 else fquot (foldl fadd (sum_stat st0) (map result cs))
                        (Fin (of_int (count st0 + int (length cs)))))\<rparr> \<and>
           (cs \<noteq> [] \<longrightarrow> DAList.lookup (daily_stats s') day \<noteq> None)"
  using assms
proof (induction cs arbitrary: s st0)
  case Nil
  then show ?case by (cases st0) simp
next
  case (Cons c cs)
  let ?r = "store_calculation day (timestamp c) (num1 c) (num2 c) (operation c) (result c) s"
  define st1 where "st1 =
    \<lparr>count = count st0 + 1,
     sum_stat = fadd (sum_stat st0) (result c),
     min_stat = py_min (min_stat st0) (result c),
     max_stat = py_max (max_stat st0) (result c),
     average = fquot (fadd (sum_stat st0) (result c)) (Fin (of_int (count st0 + 1)))\<rparr>"
  from Cons.prems(2) have nz: "count st0 + 1 \<noteq> 0" by simp
  have upd: "update_daily_stats day (result c) (daily_stats s)
               = (DAList.update day st1 (daily_stats s), None)"
    unfolding st1_def by (rule update_daily_stats_day [OF Cons.prems(1) nz])
  have err: "snd ?r = None"
    by (simp add: store_calculation_error upd)
  have look: "DAList.lookup (daily_stats (fst ?r)) day = Some st1"
    by (simp add: store_calculation_stats upd)
  have st1: "st1 = (case DAList.lookup (daily_stats (fst ?r)) day of
                      None \<Rightarrow> new_stats | Some st \<Rightarrow> st)"
    by (simp add: look)
  have "0 \<le> count st1" using Cons.prems(2) by (simp add: st1_def)
  from Cons.IH [OF st1 this] obtain s' where s':
    "append_all day cs (fst ?r) = (s', None)"
    "(case DAList.lookup (daily_stats s') day of None \<Rightarrow> new_stats | Some st \<Rightarrow> st) =
       \<lparr>count = count st1 + int (length cs),
        sum_stat = foldl fadd (sum_stat st1) (map result cs),
        min_stat = foldl py_min (min_stat st1) (map result cs),
        max_stat = foldl py_max (max_stat st1) (map result cs),
        average =
          (if cs = [] then average st1
           else fquot (foldl fadd (sum_stat st1) (map result cs))
                  (Fin (of_int (count st1 + int (length cs)))))\<rparr>"
    "cs \<noteq> [] \<longrightarrow> DAList.lookup (daily_stats s') day \<noteq> None"
    by blast
  have run: "append_all day (c # cs) s = (s', None)"
    using err s'(1) by (cases ?r) simp
  have present: "DAList.lookup (daily_stats s') day \<noteq> None"
  proof (cases "cs = []")
    case True
    with s'(1) have "s' = fst ?r" by simp
    with look show ?thesis by simp
  next
    case False
    with s'(3) show ?thesis by simp
  qed
  show ?case
    using run s'(2) present by (simp add: st1_def add.assoc)
qed

lemma fle_trans: "fle a b \<Longrightarrow> fle b c \<Longrightarrow> fle a c"
  by (cases a; cases b; cases c; auto simp add: fle_def feq_def)

lemma fle_PInf: "fle PInf r \<Longrightarrow> r = PInf"
  by (cases r; simp add: fle_def feq_def)

lemma fle_NInf: "fle r NInf \<Longrightarrow> r = NInf"
  by (cases r; simp add: fle_def feq_def)

lemma py_min_cases: "py_min m r = m \<or> py_min m r = r"
  by (simp add: py_min_def)

lemma py_max_cases: "py_max m r = m \<or> py_max m r = r"
  by (simp add: py_max_def)

lemma foldl_py_min:
  assumes "m \<noteq> NaN" and "\<forall>r \<in> set rs. r \<noteq> NaN"
  shows "foldl py_min m rs \<noteq> NaN \<and> fle (foldl py_min m rs) m \<and>
         (\<forall>r \<in> set rs. fle (foldl py_min m rs) r) \<and>
         (foldl py_min m rs = m \<or> foldl py_min m rs \<in> set rs)"
  using assms
proof (induction rs arbitrary: m)
  case Nil
  then show ?case by (simp add: fle_refl)
next
  case (Cons r rs)
  let ?m = "py_min m r"
  let ?f = "foldl py_min ?m rs"
  from Cons.prems have r: "r \<noteq> NaN" and rs: "\<forall>x \<in> set rs. x \<noteq> NaN" by simp_all
  have m': "?m \<noteq> NaN" using Cons.prems(1) by (rule py_min_not_NaN)
  from Cons.IH [OF m' rs] have ih: "?f \<noteq> NaN" "fle ?f ?m" "\<forall>x \<in> set rs. fle ?f x"
    "?f = ?m \<or> ?f \<in> set rs" by simp_all
  have "fle ?m m" using Cons.prems(1) by (simp add: py_min_le_old fle_refl)
  with ih(2) have 1: "fle ?f m" by (rule fle_trans)
  have "fle ?m r" using Cons.prems(1) r by (rule py_min_le_new)
  with ih(2) have 2: "fle ?f r" by (rule fle_trans)
  from ih(4) py_min_cases [of m r] have 3: "?f = m \<or> ?f \<in> set (r # rs)" by auto
  from ih(1,3) 1 2 3 show ?case by simp
qed

lemma foldl_py_max:
  assumes "m \<noteq> NaN" and "\<forall>r \<in> set rs. r \<noteq> NaN"
  shows "foldl py_max m rs \<noteq> NaN \<and> fle m (foldl py_max m rs) \<and>
         (\<forall>r \<in> set rs. fle r (foldl py_max m rs)) \<and>
         (foldl py_max m rs = m \<or> foldl py_max m rs \<in> set rs)"
  using assms
proof (induction rs arbitrary: m)
  case Nil
  then show ?case by (simp add: fle_refl)
next
  case (Cons r rs)
  let ?m = "py_max m r"
  let ?f = "foldl py_max ?m rs"
  from Cons.prems have r: "r \<noteq> NaN" and rs: "\<forall>x \<in> set rs. x \<noteq> NaN" by simp_all
  have m': "?m \<noteq> NaN" using Cons.prems(1) by (rule py_max_not_NaN)
  from Cons.IH [OF m' rs] have ih: "?f \<noteq> NaN" "fle ?m ?f" "\<forall>x \<in> set rs. fle x ?f"
    "?f = ?m \<or> ?f \<in> set rs" by simp_all
  have "fle m ?m" using Cons.prems(1) by (simp add: py_max_ge_old fle_refl)
  from this ih(2) have 1: "fle m ?f" by (rule fle_trans)
  have "fle r ?m" using Cons.prems(1) r by (rule py_max_ge_new)
  from this ih(2) have 2: "fle r ?f" by (rule fle_trans)
  from ih(4) py_max_cases [of m r] have 3: "?f = m \<or> ?f \<in> set (r # rs)" by auto
  from ih(1,3) 1 2 3 show ?case by simp
qed

lemma least_of_foldl:
  assumes "rs \<noteq> []" and "\<forall>r \<in> set rs. r \<noteq> NaN"
  shows "least_of rs (foldl py_min PInf rs)"
proof -
  from foldl_py_min [OF _ assms(2), of PInf]
  have le: "\<forall>r \<in> set rs. fle (foldl py_min PInf rs) r"
    and mem: "foldl py_min PInf rs = PInf \<or> foldl py_min PInf rs \<in> set rs" by simp_all
  have "foldl py_min PInf rs \<in> set rs"
  proof (cases "foldl py_min PInf rs = PInf")
    case True
    from assms(1) obtain r where r: "r \<in> set rs" by (cases rs) auto
    with le True have "r = PInf" by (simp add: fle_PInf)
    with r True show ?thesis by simp
  next
    case False
    with mem show ?thesis by simp
  qed
  with le show ?thesis by (simp add: least_of_def)
qed

lemma greatest_of_foldl:
  assumes "rs \<noteq> []" and "\<forall>r \<in> set rs. r \<noteq> NaN"
  shows "greatest_of rs (foldl py_max NInf rs)"
proof -
  from foldl_py_max [OF _ assms(2), of NInf]
  have le: "\<forall>r \<in> set rs. fle r (foldl py_max NInf rs)"
    and mem: "foldl py_max NInf rs = NInf \<or> foldl py_max NInf rs \<in> set rs" by simp_all
  have "foldl py_max NInf rs \<in> set rs"
  proof (cases "foldl py_max NInf rs = NInf")
    case True
    from assms(1) obtain r where r: "r \<in> set rs" by (cases rs) auto
    with le True have "r = NInf" by (simp add: fle_NInf)
    with r True show ?thesis by simp
  next
    case False
    with mem show ?thesis by simp
  qed
  with le show ?thesis by (simp add: greatest_of_def)
qed

lemma reachable_no_records:
  assumes "reachable s" and "day_records (calculation_history s) day = []"
  shows "DAList.lookup (daily_stats s) day = None"
  using reachable_invariant [OF assms(1), of day] assms(2)
  by (auto simp add: day_records_def split: option.splits)

text \<open>
  C1 as stated: after appending results to a day with no prior records the minimum
  and the maximum are those of the results, the first appended result being both.
  When the first result is NaN (the result of \<open>nan + 1\<close>), the comparisons in
  \<open>min\<close> and \<open>max\<close> are false and the sentinels stay: the minimum is \<open>inf\<close>, the
  maximum \<open>-inf\<close>, and neither is the appended result.
\<close>

theorem statistics_after_appends_counterexample:
  "reachable empty_store \<and> day_records (calculation_history empty_store) 1 = [] \<and>
   append_all 1
     [\<lparr>timestamp = ''2026-11-01 09:00:00'', num1 = NaN, num2 = Fin 1, operation = ''+'',
       result = NaN\<rparr>] empty_store
     = (\<lparr>calculation_history =
           DAList.update 1
             [\<lparr>timestamp = ''2026-11-01 09:00:00'', num1 = NaN, num2 = Fin 1, operation = ''+'',
               result = NaN\<rparr>] DAList.empty,
         daily_stats =
           DAList.update 1
             \<lparr>count = 1, sum_stat = NaN, min_stat = PInf, max_stat = NInf, average = NaN\<rparr>
             DAList.empty\<rparr>, None) \<and>
   PInf \<noteq> NaN \<and> NInf \<noteq> NaN \<and> \<not> least_of [NaN] PInf \<and> \<not> greatest_of [NaN] NInf"
proof -
  have "reachable empty_store" by (rule reachable_empty)
  then show ?thesis
    by (simp add: store_calculation_def update_daily_stats_def empty_store_def new_stats_def
        truediv_def feq_def py_min_def py_max_def double_round_examples day_records_def least_of_def greatest_of_def
        Let_def)
qed

text \<open>
  C1, amended: the fresh entry has the sentinels \<open>inf\<close> and \<open>-inf\<close>; and for a day
  with no prior records in a reachable store, after each of the first \<open>k\<close> appends
  (\<open>1 \<le> k \<le> N\<close>) no append has raised and the entry of the day has count \<open>k\<close>,
  sum \<open>0.0 + r1 + ... + rk\<close> added in that order, and as average the value of
  \<open>sum / k\<close>; when none of \<open>r1..rk\<close> is NaN, its minimum is the least and its
  maximum the greatest of them, and after the first append the result is both
  minimum and maximum.
\<close>

theorem statistics_after_appends:
  assumes "reachable s" and "day_records (calculation_history s) day = []"
    and "1 \<le> k" and "k \<le> length cs"
  shows "min_stat new_stats = PInf \<and> max_stat new_stats = NInf \<and>
         (\<exists>s' st. append_all day (take k cs) s = (s', None) \<and>
            DAList.lookup (daily_stats s') day = Some st \<and>
            count st = int k \<and>
            sum_stat st = foldl fadd (Fin 0) (map result (take k cs)) \<and>
            truediv (sum_stat st) (Fin (of_int (int k))) = Inr (average st) \<and>
            ((\<forall>c \<in> set (take k cs). result c \<noteq> NaN) \<longrightarrow>
               least_of (map result (take k cs)) (min_stat st) \<and>
               greatest_of (map result (take k cs)) (max_stat st) \<and>
               (k = 1 \<longrightarrow> min_stat st = result (hd cs) \<and> max_stat st = result (hd cs))))"
proof -
  let ?cs = "take k cs"
  let ?rs = "map result ?cs"
  have none: "DAList.lookup (daily_stats s) day = None"
    using assms(1,2) by (rule reachable_no_records)
  then have st0: "new_stats = (case DAList.lookup (daily_stats s) day of
                                 None \<Rightarrow> new_stats | Some st \<Rightarrow> st)"
    by simp
  have len: "length ?cs = k" using assms(4) by simp
  with assms(3) have ne: "?cs \<noteq> []" by auto
  have "0 \<le> count new_stats" by (simp add: new_stats_def)
  from append_all_stats [OF st0 this, of ?cs] ne obtain s' st where run:
    "append_all day ?cs s = (s', None)"
    "DAList.lookup (daily_stats s') day = Some st"
    "st = \<lparr>count = count new_stats + int (length ?cs),
           sum_stat = foldl fadd (sum_stat new_stats) ?rs,
           min_stat = foldl py_min (min_stat new_stats) ?rs,
           max_stat = foldl py_max (max_stat new_stats) ?rs,
           average = fquot (foldl fadd (sum_stat new_stats) ?rs)
                       (Fin (of_int (count new_stats + int (length ?cs))))\<rparr>"
    by (auto simp add: new_stats_def)
  have cnt: "count st = int k" using assms(4) by (simp add: run(3) new_stats_def)
  have sm: "sum_stat st = foldl fadd (Fin 0) ?rs" by (simp add: run(3) new_stats_def)
  have "int k \<noteq> 0" using assms(3) by simp
  then have "truediv (sum_stat st) (Fin (of_int (int k)))
               = Inr (fquot (sum_stat st) (Fin (of_int (int k))))"
    by (rule truediv_count)
  moreover have "average st = fquot (sum_stat st) (Fin (of_int (int k)))"
    using assms(4) by (simp add: run(3) new_stats_def)
  ultimately have av: "truediv (sum_stat st) (Fin (of_int (int k))) = Inr (average st)"
    by simp
  have bounds: "(\<forall>c \<in> set ?cs. result c \<noteq> NaN) \<longrightarrow>
      least_of ?rs (min_stat st) \<and> greatest_of ?rs (max_stat st) \<and>
      (k = 1 \<longrightarrow> min_stat st = result (hd cs) \<and> max_stat st = result (hd cs))"
  proof
    assume "\<forall>c \<in> set ?cs. result c \<noteq> NaN"
    then have nan: "\<forall>r \<in> set ?rs. r \<noteq> NaN" by simp
    have mn: "least_of ?rs (min_stat st)"
      using least_of_foldl [of ?rs] ne nan by (simp add: run(3) new_stats_def)
    have mx: "greatest_of ?rs (max_stat st)"
      using greatest_of_foldl [of ?rs] ne nan by (simp add: run(3) new_stats_def)
    have "k = 1 \<longrightarrow> min_stat st = result (hd cs) \<and> max_stat st = result (hd cs)"
    proof
      assume k1: "k = 1"
      with assms(4) have "cs \<noteq> []" by auto
      with k1 have "?rs = [result (hd cs)]" by (cases cs) simp_all
      with mn mx show "min_stat st = result (hd cs) \<and> max_stat st = result (hd cs)"
        by (simp add: least_of_def greatest_of_def)
    qed
    with mn mx show "least_of ?rs (min_stat st) \<and> greatest_of ?rs (max_stat st) \<and>
      (k = 1 \<longrightarrow> min_stat st = result (hd cs) \<and> max_stat st = result (hd cs))"
      by simp
  qed
  have sentinels: "min_stat new_stats = PInf \<and> max_stat new_stats = NInf"
    by (simp add: new_stats_def)
  from run(1,2) cnt sm av bounds have
    "\<exists>s' st. append_all day ?cs s = (s', None) \<and>
            DAList.lookup (daily_stats s') day = Some st \<and>
            count st = int k \<and>
            sum_stat st = foldl fadd (Fin 0) ?rs \<and>
            truediv (sum_stat st) (Fin (of_int (int k))) = Inr (average st) \<and>
            ((\<forall>c \<in> set ?cs. result c \<noteq> NaN) \<longrightarrow>
               least_of ?rs (min_stat st) \<and> greatest_of ?rs (max_stat st) \<and>
               (k = 1 \<longrightarrow> min_stat st = result (hd cs) \<and> max_stat st = result (hd cs)))"
    by blast
  with sentinels show ?thesis by blast
qed

theorem statistics_after_appends_witness:
  "reachable empty_store \<and> day_records (calculation_history empty_store) 3 = [] \<and>
   (\<exists>s' st.
      append_all 3
        (take 2
          [\<lparr>timestamp = ''2026-11-03 12:00:00'', num1 = Fin 10, num2 = Fin 2, operation = ''/'',
            result = Fin 5\<rparr>,
           \<lparr>timestamp = ''2026-11-03 12:05:00'', num1 = Fin 4, num2 = Fin 4, operation = ''*'',
            result = Fin 16\<rparr>]) empty_store = (s', None) \<and>
      DAList.lookup (daily_stats s') 3 = Some st \<and>
      count st = 2 \<and> sum_stat st = Fin 21 \<and> min_stat st = Fin 5 \<and> max_stat st = Fin 16 \<and>
      average st = Fin (21 / 2))"
proof -
  let ?cs = "[\<lparr>timestamp = ''2026-11-03 12:00:00'', num1 = Fin 10, num2 = Fin 2,
               operation = ''/'', result = Fin 5\<rparr>,
              \<lparr>timestamp = ''2026-11-03 12:05:00'', num1 = Fin 4, num2 = Fin 4,
               operation = ''*'', result = Fin 16\<rparr>]"
  have h: "day_records (calculation_history empty_store) 3 = []"
    by (simp add: empty_store_def day_records_def)
  have rs: "map result (take 2 ?cs) = [Fin 5, Fin 16]" by simp
  have n: "\<forall>c \<in> set (take 2 ?cs). result c \<noteq> NaN" by simp
  have k1: "(1::nat) \<le> 2" by simp
  have k2: "2 \<le> length ?cs" by simp
  from statistics_after_appends [OF reachable_empty h k1 k2] n
  obtain s' st where run: "append_all 3 (take 2 ?cs) empty_store = (s', None)"
    and look: "DAList.lookup (daily_stats s') 3 = Some st"
    and cnt: "count st = int 2"
    and sm: "sum_stat st = foldl fadd (Fin 0) (map result (take 2 ?cs))"
    and mn: "least_of (map result (take 2 ?cs)) (min_stat st)"
    and mx: "greatest_of (map result (take 2 ?cs)) (max_stat st)"
    and av: "truediv (sum_stat st) (Fin (of_int (int 2))) = Inr (average st)"
    by blast
  have sm': "sum_stat st = Fin 21" unfolding sm rs by (simp add: double_round_examples)
  have mn': "min_stat st = Fin 5"
    using mn unfolding rs by (cases "min_stat st") (auto simp add: least_of_def fle_def feq_def)
  have mx': "max_stat st = Fin 16"
    using mx unfolding rs by (cases "max_stat st") (auto simp add: greatest_of_def fle_def feq_def)
  have av': "average st = Fin (21 / 2)"
    using av unfolding sm' by (simp add: truediv_def feq_def double_round_examples)
  have c': "count st = 2" using cnt by simp
  from run look c' sm' mn' mx' av' have
    "\<exists>s' st. append_all 3 (take 2 ?cs) empty_store = (s', None) \<and>
      DAList.lookup (daily_stats s') 3 = Some st \<and>
      count st = 2 \<and> sum_stat st = Fin 21 \<and> min_stat st = Fin 5 \<and> max_stat st = Fin 16 \<and>
      average st = Fin (21 / 2)"
    by blast
  with reachable_empty h show ?thesis by blast
qed

section \<open>Listing the days\<close>

lemma listed_days_calcs: "listed_days (map IndentedCalc cs @ os) = listed_days os"
  by (induction cs) simp_all

lemma listed_days_stats_lines: "listed_days (stats_lines st @ os) = listed_days os"
  by (simp add: stats_lines_def)

lemma show_days_listed:
  assumes "\<forall>d \<in> set ds. DAList.lookup h d \<noteq> None"
  shows "listed_days (fst (show_days h ds)) = ds \<and> snd (show_days h ds) = None"
  using assms
  by (induction ds) (auto simp add: listed_days_calcs split: prod.splits)

lemma show_stats_listed:
  assumes "\<forall>d \<in> set ds. DAList.lookup m d \<noteq> None"
  shows "listed_days (fst (show_stats m ds)) = ds \<and> snd (show_stats m ds) = None"
  using assms
  by (induction ds) (auto simp add: listed_days_stats_lines split: prod.splits)

lemma keys_lookup: "d \<in> set (map fst (DAList.impl_of m)) \<longleftrightarrow> DAList.lookup m d \<noteq> None"
  by (simp add: DAList.lookup.rep_eq map_of_eq_None_iff)

lemma display_all_listed:
  "listed_days (fst (display_daily_history None s))
     = sort (map fst (DAList.impl_of (calculation_history s))) \<and>
   snd (display_daily_history None s) = None"
proof -
  let ?ks = "sort (map fst (DAList.impl_of (calculation_history s)))"
  have "\<forall>d \<in> set ?ks. DAList.lookup (calculation_history s) d \<noteq> None"
    using keys_lookup [of _ "calculation_history s"] by simp
  from show_days_listed [OF this] show ?thesis
    by (simp add: display_daily_history_def case_prod_beta)
qed

lemma view_statistics_listed:
  "listed_days (fst (view_statistics s)) = sort (map fst (DAList.impl_of (daily_stats s))) \<and>
   snd (view_statistics s) = None"
proof -
  let ?ks = "sort (map fst (DAList.impl_of (daily_stats s)))"
  have "\<forall>d \<in> set ?ks. DAList.lookup (daily_stats s) d \<noteq> None"
    using keys_lookup [of _ "daily_stats s"] by simp
  from show_stats_listed [OF this] show ?thesis
    by (simp add: view_statistics_def case_prod_beta)
qed

lemma strict_sorted_keys: "sorted_wrt (<) (sort (map fst (DAList.impl_of m)))"
  by (simp add: strict_sorted_iff)

lemma reachable_history_key:
  assumes "reachable s"
  shows "DAList.lookup (calculation_history s) d \<noteq> None \<longleftrightarrow>
           day_records (calculation_history s) d \<noteq> []"
  using reachable_invariant [OF assms, of d]
  by (auto simp add: day_records_def split: option.splits)

lemma reachable_stats_key:
  assumes "reachable s"
  shows "DAList.lookup (daily_stats s) d \<noteq> None \<longleftrightarrow>
           day_records (calculation_history s) d \<noteq> []"
  using reachable_invariant [OF assms, of d]
  by (auto simp add: day_records_def split: option.splits)

text \<open>
  C6: in every reachable store, the view of all history and the view of all
  statistics raise nothing and list the days in strictly ascending order, and the
  days listed by either are exactly the days with at least one record.
\<close>

theorem all_days_listed_ascending:
  assumes "reachable s"
  shows "snd (display_daily_history None s) = None \<and>
         snd (view_statistics s) = None \<and>
         sorted_wrt (<) (listed_days (fst (display_daily_history None s))) \<and>
         sorted_wrt (<) (listed_days (fst (view_statistics s))) \<and>
         (\<forall>d. d \<in> set (listed_days (fst (display_daily_history None s))) \<longleftrightarrow>
                day_records (calculation_history s) d \<noteq> []) \<and>
         (\<forall>d. d \<in> set (listed_days (fst (view_statistics s))) \<longleftrightarrow>
                day_records (calculation_history s) d \<noteq> [])"
proof -
  have h: "\<forall>d. d \<in> set (sort (map fst (DAList.impl_of (calculation_history s)))) \<longleftrightarrow>
             day_records (calculation_history s) d \<noteq> []"
    using keys_lookup [of _ "calculation_history s"] reachable_history_key [OF assms] by simp
  have v: "\<forall>d. d \<in> set (sort (map fst (DAList.impl_of (daily_stats s)))) \<longleftrightarrow>
             day_records (calculation_history s) d \<noteq> []"
    using keys_lookup [of _ "daily_stats s"] reachable_stats_key [OF assms] by simp
  from h v show ?thesis
    by (simp only: display_all_listed view_statistics_listed strict_sorted_keys simp_thms)
qed

theorem all_days_listed_ascending_witness:
  "reachable (fst (store_calculation 2 ''2026-12-02 08:30:00'' (Fin 4) (Fin 4) ''*'' (Fin 16)
      (fst (store_calculation 5 ''2026-11-05 17:00:00'' (Fin 10) (Fin 2) ''/'' (Fin 5)
         empty_store)))) \<and>
   listed_days (fst (display_daily_history None
     (fst (store_calculation 2 ''2026-12-02 08:30:00'' (Fin 4) (Fin 4) ''*'' (Fin 16)
        (fst (store_calculation 5 ''2026-11-05 17:00:00'' (Fin 10) (Fin 2) ''/'' (Fin 5)
           empty_store)))))) = [2, 5] \<and>
   sorted_wrt (<) (listed_days (fst (display_daily_history None
     (fst (store_calculation 2 ''2026-12-02 08:30:00'' (Fin 4) (Fin 4) ''*'' (Fin 16)
        (fst (store_calculation 5 ''2026-11-05 17:00:00'' (Fin 10) (Fin 2) ''/'' (Fin 5)
           empty_store)))))))"
proof -
  let ?s = "fst (store_calculation 2 ''2026-12-02 08:30:00'' (Fin 4) (Fin 4) ''*'' (Fin 16)
      (fst (store_calculation 5 ''2026-11-05 17:00:00'' (Fin 10) (Fin 2) ''/'' (Fin 5)
         empty_store)))"
  have r: "reachable ?s"
    by (intro reachable_store reachable_empty)
  have keys: "map fst (DAList.impl_of (calculation_history ?s)) = [5, 2]"
    by (simp add: store_calculation_history empty_store_def DAList.update.rep_eq
        DAList.empty.rep_eq)
  have "listed_days (fst (display_daily_history None ?s)) = [2, 5]"
    by (simp add: display_all_listed keys)
  with r all_days_listed_ascending [OF r] show ?thesis by simp
qed

text \<open>
  C7: in every reachable store, a day with no recorded calculation is not a key of
  the history, and \<open>display_daily_history\<close> for that day prints the single line
  "No calculations found for day" with the day and raises nothing; so does menu
  entry 3 for a day between 1 and 31, after which the loop goes on.
\<close>

theorem no_calculations_found:
  assumes "reachable s" and "day_records (calculation_history s) d = []"
  shows "DAList.lookup (calculation_history s) d = None \<and>
         display_daily_history (Some d) s = ([NoCalculationsFound d], None) \<and>
         (1 \<le> d \<and> d \<le> 31 \<longrightarrow>
            main_iteration (i\<lparr>choice := ''3'', entered_day := Some d\<rparr>) s
              = ([NoCalculationsFound d], s, Continue))"
proof -
  have none: "DAList.lookup (calculation_history s) d = None"
    using reachable_history_key [OF assms(1), of d] assms(2) by simp
  then have shown: "display_daily_history (Some d) s = ([NoCalculationsFound d], None)"
    by (simp add: display_daily_history_def)
  then have "1 \<le> d \<and> d \<le> 31 \<longrightarrow>
            main_iteration (i\<lparr>choice := ''3'', entered_day := Some d\<rparr>) s
              = ([NoCalculationsFound d], s, Continue)"
    by (simp add: main_iteration_def after_view_def)
  with none shown show ?thesis by simp
qed

theorem no_calculations_found_witness:
  "reachable (fst (store_calculation 3 ''2026-11-03 12:00:00'' (Fin 5) (Fin 3) ''+'' (Fin 8)
      empty_store)) \<and>
   day_records (calculation_history (fst (store_calculation 3 ''2026-11-03 12:00:00'' (Fin 5)
      (Fin 3) ''+'' (Fin 8) empty_store))) 4 = [] \<and>
   display_daily_history (Some 4)
     (fst (store_calculation 3 ''2026-11-03 12:00:00'' (Fin 5) (Fin 3) ''+'' (Fin 8) empty_store))
     = ([NoCalculationsFound 4], None)"
proof -
  let ?s = "fst (store_calculation 3 ''2026-11-03 12:00:00'' (Fin 5) (Fin 3) ''+'' (Fin 8)
      empty_store)"
  have r: "reachable ?s"
    by (rule reachable_store [OF reachable_empty])
  have e: "day_records (calculation_history ?s) 4 = []"
    by (simp add: store_calculation_history empty_store_def day_records_def)
  from no_calculations_found [OF r e] r e show ?thesis by simp
qed

end
